theory Spec2Isabelle
  imports Complex_Main "HOL-Library.Word"
begin

section \<open>JavaScript strings\<close>

text \<open>
  A JavaScript string is a sequence of 16-bit code units. Literals of the script are
  written \<open>js ''...''\<close>.
\<close>

type_synonym code_unit = "16 word"

type_synonym jsstring = "code_unit list"

definition js :: "string \<Rightarrow> jsstring" where
  "js s = map of_char s"

section \<open>The heart element and its class lists\<close>

text \<open>
  A heart element is an element of class \<open>wishlist-heart\<close> together with its icon, the
  \<open>i\<close> element that \<open>heart.querySelector('i')\<close> returns: the page provides every heart
  with one, and the script relies on it. A \<open>classList\<close> is a set of tokens: \<open>add\<close>
  inserts a token, \<open>remove\<close> deletes it, \<open>contains\<close> is membership. \<open>bookIsbn\<close> is
  \<open>dataset.bookIsbn\<close>, the \<open>data-book-isbn\<close> attribute: \<open>None\<close> where the attribute is
  missing (\<open>undefined\<close> in the script), which the script provides for.
\<close>

record heart =
  bookIsbn :: "jsstring option"
  classList :: "jsstring set"
  iconClassList :: "jsstring set"

definition classList_add :: "jsstring \<Rightarrow> jsstring set \<Rightarrow> jsstring set" where
  "classList_add c cl = insert c cl"

definition classList_remove :: "jsstring \<Rightarrow> jsstring set \<Rightarrow> jsstring set" where
  "classList_remove c cl = cl - {c}"

definition classList_contains :: "jsstring set \<Rightarrow> jsstring \<Rightarrow> bool" where
  "classList_contains cl c = (c \<in> cl)"

text \<open>\<open>updateWishlistHeart(heart, inWishlist)\<close>, statement by statement.\<close>

definition updateWishlistHeart :: "heart \<Rightarrow> bool \<Rightarrow> heart" where
  "updateWishlistHeart h inWishlist =
     (if inWishlist then
        (let h1 = h\<lparr>classList := classList_add (js ''active'') (classList h)\<rparr>;
             h2 = h1\<lparr>iconClassList := classList_remove (js ''text-muted'') (iconClassList h1)\<rparr>
         in h2\<lparr>iconClassList := classList_add (js ''text-danger'') (iconClassList h2)\<rparr>)
      else
        (let h1 = h\<lparr>classList := classList_remove (js ''active'') (classList h)\<rparr>;
             h2 = h1\<lparr>iconClassList := classList_remove (js ''text-danger'') (iconClassList h1)\<rparr>
         in h2\<lparr>iconClassList := classList_add (js ''text-muted'') (iconClassList h2)\<rparr>))"

text \<open>
  The three classes the operation touches, read off an element: the container's
  \<open>active\<close>, the icon's \<open>text-danger\<close> and the icon's \<open>text-muted\<close>.
\<close>

definition is_active :: "heart \<Rightarrow> bool" where
  "is_active h = classList_contains (classList h) (js ''active'')"

definition icon_danger :: "heart \<Rightarrow> bool" where
  "icon_danger h = classList_contains (iconClassList h) (js ''text-danger'')"

definition icon_muted :: "heart \<Rightarrow> bool" where
  "icon_muted h = classList_contains (iconClassList h) (js ''text-muted'')"

definition class_state :: "heart \<Rightarrow> bool \<times> bool \<times> bool" where
  "class_state h = (is_active h, icon_danger h, icon_muted h)"

definition heart_consistent :: "heart \<Rightarrow> bool" where
  "heart_consistent h =
     ((is_active h = icon_danger h) \<and> \<not> (icon_muted h \<and> icon_danger h))"

section \<open>The navbar scroll controller\<close>

text \<open>
  \<open>initializeNavbarScroll(navbar, lastScrollTop, navbarHeight)\<close> registers one scroll
  listener. The listener closes over the navbar element, over \<open>navbarHeight\<close> and over
  the parameter variable \<open>lastScrollTop\<close>, which it assigns at its end: these are the
  controller's state. The entry point passes \<open>0\<close> and \<open>navbar.offsetHeight\<close>. Offsets
  are JavaScript numbers; the listener only compares them, so they are modelled as reals.
\<close>

record navbar_scroll =
  navbarClassList :: "jsstring set"
  lastScrollTop :: real
  navbarHeight :: real

definition initializeNavbarScroll :: "jsstring set \<Rightarrow> real \<Rightarrow> real \<Rightarrow> navbar_scroll" where
  "initializeNavbarScroll navbar last0 height =
     \<lparr>navbarClassList = navbar, lastScrollTop = last0, navbarHeight = height\<rparr>"

text \<open>
  \<open>window.pageYOffset || document.documentElement.scrollTop\<close>: the right operand is
  taken when the left one is \<open>0\<close>.
\<close>

definition current_scrollTop :: "real \<Rightarrow> real \<Rightarrow> real" where
  "current_scrollTop pageYOffset docScrollTop =
     (if pageYOffset \<noteq> 0 then pageYOffset else docScrollTop)"

text \<open>The scroll listener, given the two offsets the browser reports at the event.\<close>

definition on_scroll :: "real \<Rightarrow> real \<Rightarrow> navbar_scroll \<Rightarrow> navbar_scroll" where
  "on_scroll pageYOffset docScrollTop s =
     (let scrollTop = current_scrollTop pageYOffset docScrollTop;
          s1 = (if scrollTop > lastScrollTop s \<and> scrollTop > navbarHeight s
                then s\<lparr>navbarClassList :=
                        classList_add (js ''navbar-hidden'') (navbarClassList s)\<rparr>
                else s\<lparr>navbarClassList :=
                        classList_remove (js ''navbar-hidden'') (navbarClassList s)\<rparr>);
          s2 = (if scrollTop > 100
                then s1\<lparr>navbarClassList :=
                        classList_add (js ''navbar-scrolled'') (navbarClassList s1)\<rparr>
                else s1\<lparr>navbarClassList :=
                        classList_remove (js ''navbar-scrolled'') (navbarClassList s1)\<rparr>)
      in s2\<lparr>lastScrollTop := scrollTop\<rparr>)"

section \<open>Errors\<close>

text \<open>
  What the script's operations can raise or reject with: the \<open>URIError\<close> of
  \<open>decodeURIComponent\<close>, the rejection of \<open>fetch\<close> on a transport failure, the
  \<open>Error\<close> that \<open>toggleWishlist\<close> throws on a response that is not ok, the rejection
  of \<open>response.json()\<close> on a body that is not JSON, and the \<open>SyntaxError\<close> of
  \<open>querySelector\<close> on an ill-formed selector.
\<close>

datatype error = URIError | FetchFailed | ResponseNotOk | JsonSyntaxError | SelectorSyntaxError

section \<open>The cookie reader\<close>

text \<open>
  \<open>String.prototype.split\<close> with a one-unit separator, \<open>trim\<close> (ECMAScript white space
  and line terminators), and \<open>substring\<close> as \<open>take\<close> and \<open>drop\<close>.
\<close>

fun split_on :: "code_unit \<Rightarrow> jsstring \<Rightarrow> jsstring list" where
  "split_on sep [] = [[]]"
| "split_on sep (c # cs) =
     (if c = sep then [] # split_on sep cs
      else (case split_on sep cs of [] \<Rightarrow> [[c]] | x # xs \<Rightarrow> (c # x) # xs))"

definition is_white_space :: "code_unit \<Rightarrow> bool" where
  "is_white_space c =
     (c \<in> {0x09, 0x0A, 0x0B, 0x0C, 0x0D, 0x20, 0xA0, 0x1680, 0x2028, 0x2029, 0x202F,
            0x205F, 0x3000, 0xFEFF} \<or> (0x2000 \<le> c \<and> c \<le> 0x200A))"

definition trim :: "jsstring \<Rightarrow> jsstring" where
  "trim s = rev (dropWhile is_white_space (rev (dropWhile is_white_space s)))"

text \<open>
  \<open>decodeURIComponent\<close> after ECMA-262 (Decode with an empty set of preserved
  escapes): a unit other than \<open>%\<close> is copied; \<open>%\<close> must be followed by two hex digits,
  giving an octet \<open>b\<close>; with \<open>n\<close> the number of leading one bits of \<open>b\<close>, \<open>n = 0\<close> gives
  the unit \<open>b\<close>, \<open>n = 1\<close> or \<open>n > 4\<close> is a \<open>URIError\<close>, and otherwise \<open>n - 1\<close> further
  escapes follow and the \<open>n\<close> octets must be the UTF-8 encoding of a code point, which is
  appended in UTF-16. Everything else is a \<open>URIError\<close>.
\<close>

definition hex_digit :: "code_unit \<Rightarrow> nat option" where
  "hex_digit c =
     (if 0x30 \<le> c \<and> c \<le> 0x39 then Some (unat c - 0x30)
      else if 0x41 \<le> c \<and> c \<le> 0x46 then Some (unat c - 0x41 + 10)
      else if 0x61 \<le> c \<and> c \<le> 0x66 then Some (unat c - 0x61 + 10)
      else None)"

definition parse_hex_octet :: "code_unit \<Rightarrow> code_unit \<Rightarrow> nat option" where
  "parse_hex_octet h l =
     (case hex_digit h of None \<Rightarrow> None
      | Some a \<Rightarrow> (case hex_digit l of None \<Rightarrow> None | Some b \<Rightarrow> Some (16 * a + b)))"

definition leading_ones :: "nat \<Rightarrow> nat" where
  "leading_ones b =
     (if b < 0x80 then 0 else if b < 0xC0 then 1 else if b < 0xE0 then 2
      else if b < 0xF0 then 3 else if b < 0xF8 then 4 else 5)"

fun continuation_bytes :: "nat \<Rightarrow> jsstring \<Rightarrow> (nat list \<times> jsstring) option" where
  "continuation_bytes 0 s = Some ([], s)"
| "continuation_bytes (Suc j) (p # h # l # rest) =
     (if p \<noteq> 0x25 then None
      else (case parse_hex_octet h l of None \<Rightarrow> None
            | Some b \<Rightarrow> (case continuation_bytes j rest of None \<Rightarrow> None
                          | Some (bs, r) \<Rightarrow> Some (b # bs, r))))"
| "continuation_bytes (Suc j) s = None"

definition utf8_code_point :: "nat list \<Rightarrow> nat option" where
  "utf8_code_point octets =
     (case octets of
        [] \<Rightarrow> None
      | b # bs \<Rightarrow>
          (if \<not> list_all (\<lambda>c. 0x80 \<le> c \<and> c \<le> 0xBF) bs then None
           else let n = leading_ones b;
                    v = foldl (\<lambda>acc c. acc * 64 + (c - 0x80))
                          (b - (if n = 2 then 0xC0 else if n = 3 then 0xE0 else 0xF0)) bs
                in if n = 2 \<and> 0x80 \<le> v then Some v
                   else if n = 3 \<and> 0x800 \<le> v \<and> \<not> (0xD800 \<le> v \<and> v \<le> 0xDFFF) then Some v
                   else if n = 4 \<and> 0x10000 \<le> v \<and> v \<le> 0x10FFFF then Some v
                   else None))"

definition utf16_encode :: "nat \<Rightarrow> jsstring" where
  "utf16_encode v =
     (if v \<le> 0xFFFF then [of_nat v]
      else [of_nat (0xD800 + (v - 0x10000) div 1024), of_nat (0xDC00 + (v - 0x10000) mod 1024)])"

lemma continuation_bytes_length:
  "continuation_bytes j s = Some (bs, r) \<Longrightarrow> length r \<le> length s"
proof (induction j s arbitrary: bs r rule: continuation_bytes.induct)
  case (2 j p h l rest)
  from "2.prems" obtain b cs where b: "parse_hex_octet h l = Some b"
    and cs: "continuation_bytes j rest = Some (cs, r)"
    by (auto split: if_splits option.splits)
  from "2.IH" [OF _ b cs] "2.prems" have "length r \<le> length rest"
    by (auto split: if_splits)
  then show ?case by simp
qed simp_all

function decodeURIComponent :: "jsstring \<Rightarrow> error + jsstring" where
  "decodeURIComponent [] = Inr []"
| "decodeURIComponent (c # cs) =
     (if c \<noteq> 0x25 then
        (case decodeURIComponent cs of Inl e \<Rightarrow> Inl e | Inr r \<Rightarrow> Inr (c # r))
      else
        (case cs of
           h # l # rest \<Rightarrow>
             (case parse_hex_octet h l of
                None \<Rightarrow> Inl URIError
              | Some b \<Rightarrow>
                  (let n = leading_ones b in
                   if n = 0 then
                     (case decodeURIComponent rest of
                        Inl e \<Rightarrow> Inl e | Inr r \<Rightarrow> Inr (of_nat b # r))
                   else if n = 1 \<or> n > 4 then Inl URIError
                   else
                     (case continuation_bytes (n - 1) rest of
                        None \<Rightarrow> Inl URIError
                      | Some (bs, rest') \<Rightarrow>
                          (case utf8_code_point (b # bs) of
                             None \<Rightarrow> Inl URIError
                           | Some v \<Rightarrow>
                               (case decodeURIComponent rest' of
                                  Inl e \<Rightarrow> Inl e
                                | Inr r \<Rightarrow> Inr (utf16_encode v @ r))))))
         | _ \<Rightarrow> Inl URIError))"
  by pat_completeness auto
termination
  by (relation "measure length") (auto dest: continuation_bytes_length)

text \<open>
  \<open>getCookie(name)\<close>, reading \<open>document.cookie\<close>. The \<open>for\<close> loop is
  \<open>getCookie_loop\<close>, from index \<open>i\<close>; \<open>break\<close> leaves it with the decoded value.
\<close>

function getCookie_loop ::
  "jsstring list \<Rightarrow> jsstring \<Rightarrow> nat \<Rightarrow> jsstring option \<Rightarrow> error + jsstring option" where
  "getCookie_loop cookies name i cookieValue =
     (if i < length cookies then
        (let cookie = trim (cookies ! i) in
         if take (length name + 1) cookie = name @ js ''='' then
           (case decodeURIComponent (drop (length name + 1) cookie) of
              Inl e \<Rightarrow> Inl e
            | Inr v \<Rightarrow> Inr (Some v))
         else getCookie_loop cookies name (i + 1) cookieValue)
      else Inr cookieValue)"
  by pat_completeness auto
termination
  by (relation "measure (\<lambda>(cookies, name, i, cookieValue). length cookies - i)") auto

declare getCookie_loop.simps [simp del]

definition getCookie :: "jsstring \<Rightarrow> jsstring \<Rightarrow> error + jsstring option" where
  "getCookie document_cookie name =
     (if document_cookie \<noteq> [] then getCookie_loop (split_on 0x3B document_cookie) name 0 None
      else Inr None)"


text \<open>
  The cookies as they stand in the cookie string, and the test the loop makes on each:
  the entry starts with \<open>name=\<close>.
\<close>

definition cookie_entries :: "jsstring \<Rightarrow> jsstring list" where
  "cookie_entries document_cookie = map trim (split_on 0x3B document_cookie)"

definition named :: "jsstring \<Rightarrow> jsstring \<Rightarrow> bool" where
  "named name cookie = (take (length name + 1) cookie = name @ js ''='')"

definition decoded_value :: "jsstring \<Rightarrow> jsstring \<Rightarrow> error + jsstring option" where
  "decoded_value name cookie =
     (case decodeURIComponent (drop (length name + 1) cookie) of
        Inl e \<Rightarrow> Inl e
      | Inr v \<Rightarrow> Inr (Some v))"

section \<open>The page, toasts and requests\<close>

text \<open>
  A toast as \<open>showToast(message, type, duration)\<close> inserts it into the toast
  container: its message, its type (the \<open>bg-\<close> class of the markup) and the delay
  handed to the widget. The element's id and the widget's own behaviour (showing the
  toast, hiding it, its removal once hidden) are not modelled.
\<close>

record toast =
  toast_message :: jsstring
  toast_type :: jsstring
  toast_delay :: nat

text \<open>
  A call of \<open>fetch\<close>: the URL, the verb (the \<open>method\<close> option), the headers in the
  order of the object literal (a header value is \<open>None\<close> where the script passes
  \<open>null\<close>), and the body:
  \<open>Some isbns\<close> is \<open>JSON.stringify({isbns: isbns})\<close>, \<open>None\<close> is no body.
\<close>

record request =
  url :: jsstring
  http_method :: jsstring
  headers :: "(jsstring \<times> jsstring option) list"
  body :: "jsstring list option"

text \<open>
  What the script does to the world outside the document, in order: a \<open>fetch\<close>, the
  settling of the promise that \<open>checkWishlistStates\<close> returns, and an
  \<open>addEventListener('click', ...)\<close> on the heart with the given index.
\<close>

datatype action = Fetch request | SyncSettled | AddClickListener nat

text \<open>
  Where the initialization stands: before \<open>DOMContentLoaded\<close>; waiting for the status
  request; after the callback of \<open>checkWishlistStates().then(...)\<close> has run; or after
  an exception has left the entry point.
\<close>

datatype phase = Loading | AwaitingSync | Initialized | InitFailed

text \<open>
  The page: the elements of class \<open>wishlist-heart\<close> in document order (the script
  never adds or removes one, so an element is referred to by its index), the toasts of
  the \<open>.toast-container\<close> element (\<open>None\<close> while there is no such element),
  \<open>document.cookie\<close>, the trace of actions, the phase, and the hearts of the toggle
  requests in flight.
\<close>

record page =
  hearts :: "heart list"
  toastContainer :: "toast list option"
  document_cookie :: jsstring
  trace :: "action list"
  phase :: phase
  pendingToggles :: "nat list"

text \<open>
  The JSON replies of the two endpoints, with the fields the script reads, and the ways
  a \<open>fetch\<close> can settle: rejected (a transport failure), or a response with its \<open>ok\<close>
  flag and its body, \<open>None\<close> when the body does not parse as JSON. A body that parses
  is taken to be a reply of its endpoint: \<open>success\<close> and \<open>in_wishlist\<close> booleans,
  \<open>message\<close> and \<open>isbn\<close> strings, \<open>wishlist_status\<close> a list of \<open>{isbn, in_wishlist}\<close>
  pairs.
\<close>

record reply =
  success :: bool

record toggle_reply = reply +
  in_wishlist :: bool
  message :: jsstring

record status_reply = reply +
  wishlist_status :: "(jsstring \<times> bool) list"

datatype 'a fetch_outcome = Rejected | Response bool "'a option"

text \<open>The promise a function returns: already fulfilled, or pending on a request.\<close>

datatype promise = Fulfilled | Pending

definition showToast :: "jsstring \<Rightarrow> jsstring \<Rightarrow> nat \<Rightarrow> page \<Rightarrow> page" where
  "showToast msg type duration p =
     (let container = (case toastContainer p of Some ts \<Rightarrow> ts | None \<Rightarrow> [])
      in p\<lparr>toastContainer :=
             Some (container @ [\<lparr>toast_message = msg, toast_type = type,
                                 toast_delay = duration\<rparr>])\<rparr>)"

definition updateWishlistHeart_at :: "nat \<Rightarrow> bool \<Rightarrow> page \<Rightarrow> page" where
  "updateWishlistHeart_at i inWishlist p =
     p\<lparr>hearts := (hearts p)[i := updateWishlistHeart (hearts p ! i) inWishlist]\<rparr>"

text \<open>
  \<open>promise.then(onFulfilled)\<close> and \<open>promise.catch(onRejected)\<close> on a settled promise:
  the reaction runs on the page as it stands then, and what it returns or throws settles
  the next promise of the chain.
\<close>

definition promise_then ::
  "('a \<Rightarrow> page \<Rightarrow> (error + 'b) \<times> page) \<Rightarrow> (error + 'a) \<times> page \<Rightarrow> (error + 'b) \<times> page" where
  "promise_then onFulfilled s =
     (case s of (Inl e, p) \<Rightarrow> (Inl e, p) | (Inr v, p) \<Rightarrow> onFulfilled v p)"

definition promise_catch ::
  "(error \<Rightarrow> page \<Rightarrow> (error + 'a) \<times> page) \<Rightarrow> (error + 'a) \<times> page \<Rightarrow> (error + 'a) \<times> page" where
  "promise_catch onRejected s =
     (case s of (Inl e, p) \<Rightarrow> onRejected e p | (Inr v, p) \<Rightarrow> (Inr v, p))"

definition fetch_settles ::
  "'a fetch_outcome \<Rightarrow> page \<Rightarrow> (error + bool \<times> 'a option) \<times> page" where
  "fetch_settles outcome p =
     (case outcome of
        Rejected \<Rightarrow> (Inl FetchFailed, p)
      | Response ok parsed \<Rightarrow> (Inr (ok, parsed), p))"

definition response_json :: "bool \<times> 'a option \<Rightarrow> error + 'a" where
  "response_json response =
     (case snd response of None \<Rightarrow> Inl JsonSyntaxError | Some data \<Rightarrow> Inr data)"

text \<open>
  The \<open>headers\<close> object literal of both requests: a first header, then
  \<open>'X-CSRFToken': getCookie('csrftoken')\<close>. An exception of \<open>getCookie\<close> leaves the
  calling function before \<open>fetch\<close> is called.
\<close>

definition csrf_headers :: "page \<Rightarrow> jsstring \<times> jsstring option \<Rightarrow> error + (jsstring \<times> jsstring option) list" where
  "csrf_headers p first =
     (case getCookie (document_cookie p) (js ''csrftoken'') of
        Inl e \<Rightarrow> Inl e
      | Inr token \<Rightarrow> Inr [first, (js ''X-CSRFToken'', token)])"

text \<open>
  \<open>toggleWishlist(bookIsbn, heartElement)\<close> up to the call of \<open>fetch\<close>, and the
  reactions of its chain \<open>.then(...).then(...).catch(...)\<close> once the request has
  settled with \<open>outcome\<close>.
\<close>

definition toggleWishlist :: "jsstring option \<Rightarrow> nat \<Rightarrow> page \<Rightarrow> (error + unit) \<times> page" where
  "toggleWishlist isbn heartElement p =
     (let target = js ''/wishlist/toggle-ajax/''
            @ (case isbn of None \<Rightarrow> js ''undefined'' | Some c \<Rightarrow> c) @ js ''/''
      in case csrf_headers p (js ''X-Requested-With'', Some (js ''XMLHttpRequest'')) of
           Inl e \<Rightarrow> (Inl e, p)
         | Inr hs \<Rightarrow>
             (Inr (),
              p\<lparr>trace := trace p @
                    [Fetch \<lparr>url = target, http_method = js ''POST'', headers = hs, body = None\<rparr>],
                pendingToggles := pendingToggles p @ [heartElement]\<rparr>))"

definition toggleWishlist_response ::
  "toggle_reply fetch_outcome \<Rightarrow> nat \<Rightarrow> page \<Rightarrow> (error + unit) \<times> page" where
  "toggleWishlist_response outcome heartElement p0 =
     promise_catch
       (\<lambda>e p.
          (let p1 = showToast (js ''Error updating wishlist'') (js ''danger'') 5000 p
           in (Inr (),
               updateWishlistHeart_at heartElement
                 (\<not> classList_contains (classList (hearts p1 ! heartElement)) (js ''active''))
                 p1)))
       (promise_then
          (\<lambda>data p.
             if success data then
               (let p1 = updateWishlistHeart_at heartElement (in_wishlist data) p
                in (Inr (),
                    showToast (message data)
                      (if in_wishlist data then js ''success'' else js ''info'') 5000 p1))
             else
               (let p1 = showToast (message data) (js ''warning'') 5000 p
                in (Inr (),
                    updateWishlistHeart_at heartElement
                      (\<not> classList_contains (classList (hearts p1 ! heartElement))
                            (js ''active''))
                      p1)))
          (promise_then
             (\<lambda>response p.
                if \<not> fst response then (Inl ResponseNotOk, p)
                else (response_json response, p))
             (fetch_settles outcome p0)))"

text \<open>
  The toasts on the page, and the outcomes of a toggle request that reach the \<open>catch\<close>
  reaction: a transport failure, a response that is not ok, a body that is not JSON.
\<close>

definition toasts :: "page \<Rightarrow> toast list" where
  "toasts p = (case toastContainer p of Some ts \<Rightarrow> ts | None \<Rightarrow> [])"

definition toggle_failed :: "toggle_reply fetch_outcome \<Rightarrow> bool" where
  "toggle_failed outcome =
     (case outcome of Rejected \<Rightarrow> True | Response ok parsed \<Rightarrow> \<not> ok \<or> parsed = None)"

section \<open>The startup sync\<close>

text \<open>
  \<open>checkWishlistStates()\<close> up to its \<open>return\<close>: the codes are the \<open>dataset.bookIsbn\<close>
  of the hearts, without the falsy ones (\<open>undefined\<close> and the empty string).
\<close>

definition truthy :: "jsstring option \<Rightarrow> bool" where
  "truthy v = (case v of None \<Rightarrow> False | Some c \<Rightarrow> c \<noteq> [])"

definition bookIsbns :: "page \<Rightarrow> jsstring list" where
  "bookIsbns p = map the (filter truthy (map bookIsbn (hearts p)))"

definition checkWishlistStates :: "page \<Rightarrow> (error + promise) \<times> page" where
  "checkWishlistStates p =
     (if length (bookIsbns p) = 0 then (Inr Fulfilled, p\<lparr>trace := trace p @ [SyncSettled]\<rparr>)
      else
        (case csrf_headers p (js ''Content-Type'', Some (js ''application/json'')) of
           Inl e \<Rightarrow> (Inl e, p)
         | Inr hs \<Rightarrow>
             (Inr Pending,
              p\<lparr>trace := trace p @
                    [Fetch \<lparr>url = js ''/wishlist/check-status/'', http_method = js ''POST'',
                            headers = hs, body = Some (bookIsbns p)\<rparr>]\<rparr>)))"

text \<open>
  \<open>document.querySelector(`.wishlist-heart[data-book-isbn="${status.isbn}"]`)\<close> is the
  first heart whose attribute is the code, when the code can stand in a quoted CSS string
  as it is. A code with a quote, a backslash, a line break, a NUL or a surrogate gives
  another selector text; the model lets \<open>querySelector\<close> raise there, and the theorem
  on the sync is about plain codes.
\<close>

definition plain_isbn :: "jsstring \<Rightarrow> bool" where
  "plain_isbn c =
     (\<forall>u \<in> set c. u \<notin> {0x00, 0x0A, 0x0C, 0x0D, 0x22, 0x5C} \<and> \<not> (0xD800 \<le> u \<and> u \<le> 0xDFFF))"

fun first_index :: "('a \<Rightarrow> bool) \<Rightarrow> 'a list \<Rightarrow> nat option" where
  "first_index P [] = None"
| "first_index P (x # xs) = (if P x then Some 0 else map_option Suc (first_index P xs))"

definition querySelector_heart :: "jsstring \<Rightarrow> page \<Rightarrow> error + nat option" where
  "querySelector_heart c p =
     (if plain_isbn c then Inr (first_index (\<lambda>h. bookIsbn h = Some c) (hearts p))
      else Inl SelectorSyntaxError)"

text \<open>
  The body of \<open>data.wishlist_status.forEach(...)\<close> for one \<open>{isbn, in_wishlist}\<close> pair,
  the loop (an exception ends it and keeps what was done), and the reactions of the
  chain \<open>.then(response => response.json()).then(...).catch(...)\<close>; the promise that
  \<open>checkWishlistStates\<close> returned settles after them.
\<close>

definition apply_status :: "jsstring \<times> bool \<Rightarrow> page \<Rightarrow> (error + unit) \<times> page" where
  "apply_status status p =
     (case querySelector_heart (fst status) p of
        Inl e \<Rightarrow> (Inl e, p)
      | Inr None \<Rightarrow> (Inr (), p)
      | Inr (Some heart) \<Rightarrow> (Inr (), updateWishlistHeart_at heart (snd status) p))"

fun forEach_status :: "(jsstring \<times> bool) list \<Rightarrow> page \<Rightarrow> (error + unit) \<times> page" where
  "forEach_status [] p = (Inr (), p)"
| "forEach_status (status # rest) p =
     (case apply_status status p of
        (Inl e, p') \<Rightarrow> (Inl e, p')
      | (Inr u, p') \<Rightarrow> forEach_status rest p')"

definition checkWishlistStates_response ::
  "status_reply fetch_outcome \<Rightarrow> page \<Rightarrow> (error + unit) \<times> page" where
  "checkWishlistStates_response outcome p0 =
     (case promise_catch
             (\<lambda>e p. (Inr (), p))
             (promise_then
                (\<lambda>data p.
                   if success data then forEach_status (wishlist_status data) p
                   else (Inr (), p))
                (promise_then
                   (\<lambda>response p. (response_json response, p))
                   (fetch_settles outcome p0))) of
        (r, p) \<Rightarrow> (r, p\<lparr>trace := trace p @ [SyncSettled]\<rparr>))"


definition synced_heart :: "(jsstring \<times> bool) list \<Rightarrow> heart list \<Rightarrow> nat \<Rightarrow> heart" where
  "synced_heart statuses hs j =
     (case bookIsbn (hs ! j) of
        None \<Rightarrow> hs ! j
      | Some c \<Rightarrow>
          (if first_index (\<lambda>h. bookIsbn h = Some c) hs = Some j then
             (case map_of (rev statuses) c of
                None \<Rightarrow> hs ! j
              | Some b \<Rightarrow> updateWishlistHeart (hs ! j) b)
           else hs ! j))"


section \<open>Initialization and the events of the page\<close>

text \<open>
  \<open>initializeWishlistHeart(heart)\<close> adds the click listener. The callback of
  \<open>checkWishlistStates().then(...)\<close> in \<open>initializeWishlistHearts\<close> does so for every
  heart of \<open>wishlistHearts\<close>, the hearts of the page. \<open>initializeWishlistHearts\<close> itself
  runs \<open>checkWishlistStates\<close>: on an exception it is left, and nothing more of the entry
  point runs; on a promise that is already fulfilled the callback runs once the entry
  point has returned, before any other event; on a pending promise it runs when the
  request has settled.
\<close>

definition initializeWishlistHeart :: "nat \<Rightarrow> page \<Rightarrow> page" where
  "initializeWishlistHeart heart p = p\<lparr>trace := trace p @ [AddClickListener heart]\<rparr>"

definition attach_click_handlers :: "page \<Rightarrow> page" where
  "attach_click_handlers p =
     (foldl (\<lambda>q heart. initializeWishlistHeart heart q) p [0..<length (hearts p)])
       \<lparr>phase := Initialized\<rparr>"

definition initializeWishlistHearts :: "page \<Rightarrow> page" where
  "initializeWishlistHearts p =
     (case checkWishlistStates p of
        (Inl e, p') \<Rightarrow> p'\<lparr>phase := InitFailed\<rparr>
      | (Inr Fulfilled, p') \<Rightarrow> attach_click_handlers p'
      | (Inr Pending, p') \<Rightarrow> p'\<lparr>phase := AwaitingSync\<rparr>)"

text \<open>
  The click listener of a heart: \<open>toggleWishlist(this.dataset.bookIsbn, this)\<close>
  (\<open>preventDefault\<close> and \<open>stopPropagation\<close> have no effect on the page as modelled).
\<close>

definition click_listener :: "nat \<Rightarrow> page \<Rightarrow> page" where
  "click_listener heart p = snd (toggleWishlist (bookIsbn (hearts p ! heart)) heart p)"

text \<open>
  The browser runs one event at a time, each to completion: the document is ready (the
  entry point finds the navbar it reads first, and calls \<open>initializeWishlistHearts\<close>);
  the status request settles; the user clicks the heart with the given index (every listener
  on it runs); the toggle request at position \<open>k\<close> of those in flight settles. An event
  that cannot occur in the current state changes nothing.
\<close>

datatype event =
  DOMContentLoaded
  | SyncResponse "status_reply fetch_outcome"
  | Click nat
  | ToggleResponse nat "toggle_reply fetch_outcome"

fun fire :: "event \<Rightarrow> page \<Rightarrow> page" where
  "fire DOMContentLoaded p = (if phase p = Loading then initializeWishlistHearts p else p)"
| "fire (SyncResponse outcome) p =
     (if phase p = AwaitingSync then
        (case checkWishlistStates_response outcome p of
           (Inl e, p') \<Rightarrow> p'\<lparr>phase := InitFailed\<rparr>
         | (Inr u, p') \<Rightarrow> attach_click_handlers p')
      else p)"
| "fire (Click heart) p =
     (if heart < length (hearts p)
      then (click_listener heart ^^ count_list (trace p) (AddClickListener heart)) p
      else p)"
| "fire (ToggleResponse k outcome) p =
     (if k < length (pendingToggles p) then
        snd (toggleWishlist_response outcome (pendingToggles p ! k)
               (p\<lparr>pendingToggles :=
                    take k (pendingToggles p) @ drop (Suc k) (pendingToggles p)\<rparr>))
      else p)"

definition run :: "event list \<Rightarrow> page \<Rightarrow> page" where
  "run events p = foldl (\<lambda>q e. fire e q) p events"


text \<open>
  For the order of the trace: \<open>sync_first\<close> reads a trace from its start and holds when
  \<open>SyncSettled\<close> comes before the first \<open>AddClickListener\<close> (or there is none);
  \<open>no_listener\<close> holds when no listener was added; \<open>listeners_invariant\<close> is what every
  reachable page satisfies.
\<close>

fun sync_first :: "action list \<Rightarrow> bool" where
  "sync_first [] = True"
| "sync_first (SyncSettled # t) = True"
| "sync_first (AddClickListener heart # t) = False"
| "sync_first (Fetch r # t) = sync_first t"

definition no_listener :: "action list \<Rightarrow> bool" where
  "no_listener t = (\<forall>heart. AddClickListener heart \<notin> set t)"

definition listeners_invariant :: "nat \<Rightarrow> page \<Rightarrow> bool" where
  "listeners_invariant n p =
     (length (hearts p) = n \<and> sync_first (trace p) \<and>
      (if phase p = Initialized
       then SyncSettled \<in> set (trace p) \<and>
            (\<forall>heart. count_list (trace p) (AddClickListener heart) = (if heart < n then 1 else 0))
       else no_listener (trace p)))"

section \<open>Facts about strings\<close>

lemma of_char_nat_less: "(of_char c :: nat) < 256"
proof -
  have "(of_char c :: nat) mod 256 < 256" by simp
  then show ?thesis by (simp only: of_char_mod_256)
qed

lemma unat_of_char: "unat (of_char c :: 16 word) = of_char c"
proof -
  have "(of_char c :: 16 word) = of_nat (of_char c)"
    by (simp only: of_nat_of_char)
  moreover have "(of_char c :: nat) < 2 ^ 16"
    by (rule less_trans [OF of_char_nat_less]) simp
  ultimately show ?thesis
    by (simp add: unat_of_nat take_bit_nat_eq_self)
qed

lemma of_char_word_inj: "(of_char c :: 16 word) = of_char d \<longleftrightarrow> c = d"
proof
  assume "(of_char c :: 16 word) = of_char d"
  then have "unat (of_char c :: 16 word) = unat (of_char d :: 16 word)" by simp
  then have "(of_char c :: nat) = of_char d" by (simp only: unat_of_char)
  then show "c = d" by (simp only: of_char_eq_iff)
qed simp

lemma js_eq_iff [simp]: "js s = js t \<longleftrightarrow> s = t"
  unfolding js_def by (simp add: inj_map_eq_map inj_on_def of_char_word_inj)

lemma js_Nil_iff [simp]: "js s = [] \<longleftrightarrow> s = []" "[] = js s \<longleftrightarrow> s = []"
  by (auto simp add: js_def)

section \<open>The heart's visual state\<close>

lemma class_state_updateWishlistHeart:
  "class_state (updateWishlistHeart h b) = (b, b, \<not> b)"
  by (simp add: class_state_def is_active_def icon_danger_def icon_muted_def
      updateWishlistHeart_def classList_add_def classList_remove_def classList_contains_def
      Let_def)

lemma is_active_updateWishlistHeart [simp]: "is_active (updateWishlistHeart h b) = b"
  using class_state_updateWishlistHeart [of h b] by (simp add: class_state_def)

lemma bookIsbn_updateWishlistHeart [simp]:
  "bookIsbn (updateWishlistHeart h b) = bookIsbn h"
  by (simp add: updateWishlistHeart_def Let_def)

lemma updateWishlistHeart_frame:
  "c \<noteq> js ''active'' \<Longrightarrow> classList_contains (classList (updateWishlistHeart h b)) c
     = classList_contains (classList h) c"
  "c \<noteq> js ''text-muted'' \<Longrightarrow> c \<noteq> js ''text-danger'' \<Longrightarrow>
     classList_contains (iconClassList (updateWishlistHeart h b)) c
     = classList_contains (iconClassList h) c"
  by (auto simp add: updateWishlistHeart_def classList_add_def classList_remove_def
      classList_contains_def Let_def)

text \<open>
  C9. After every call of \<open>updateWishlistHeart\<close>, whatever the element's classes were
  before and whatever the boolean argument, the container carries \<open>active\<close> exactly when
  the icon carries \<open>text-danger\<close>, and the icon does not carry \<open>text-muted\<close> and
  \<open>text-danger\<close> together; the same holds after any further calls \<open>bs\<close>.
\<close>

theorem updateWishlistHeart_consistent:
  "heart_consistent (updateWishlistHeart h b) \<and>
   heart_consistent (foldl updateWishlistHeart (updateWishlistHeart h b) bs)"
proof -
  have one: "heart_consistent (updateWishlistHeart g c)" for g c
    using class_state_updateWishlistHeart [of g c]
    by (simp add: heart_consistent_def class_state_def)
  have "heart_consistent (foldl updateWishlistHeart (updateWishlistHeart h b) bs)"
  proof (cases bs rule: rev_cases)
    case Nil
    then show ?thesis by (simp add: one)
  next
    case (snoc cs c)
    then show ?thesis by (simp add: one)
  qed
  with one show ?thesis by simp
qed

theorem updateWishlistHeart_consistent_witness:
  "heart_consistent
     (updateWishlistHeart
        \<lparr>bookIsbn = Some (js ''123''), classList = {js ''wishlist-heart''},
         iconClassList = {js ''fas'', js ''text-muted'', js ''text-danger''}\<rparr> True) \<and>
   heart_consistent
     (foldl updateWishlistHeart
        (updateWishlistHeart
           \<lparr>bookIsbn = Some (js ''123''), classList = {js ''wishlist-heart''},
            iconClassList = {js ''fas'', js ''text-muted'', js ''text-danger''}\<rparr> True)
        [False, True, True])"
  using updateWishlistHeart_consistent
    [of "\<lparr>bookIsbn = Some (js ''123''), classList = {js ''wishlist-heart''},
          iconClassList = {js ''fas'', js ''text-muted'', js ''text-danger''}\<rparr>"
        True "[False, True, True]"]
  by simp

text \<open>
  C10. \<open>updateWishlistHeart\<close> is idempotent: a second call with the same boolean leaves
  the element as the first call left it (all of its classes, not only the three). And the
  class state it produces, the three classes \<open>active\<close>, \<open>text-danger\<close> and
  \<open>text-muted\<close>, is a function of the boolean alone: two elements \<open>h\<close> and \<open>h'\<close> in any
  class states end in the same one.
\<close>

theorem updateWishlistHeart_idempotent:
  "updateWishlistHeart (updateWishlistHeart h b) b = updateWishlistHeart h b \<and>
   class_state (updateWishlistHeart (updateWishlistHeart h b) b)
     = class_state (updateWishlistHeart h b) \<and>
   class_state (updateWishlistHeart h b) = class_state (updateWishlistHeart h' b) \<and>
   class_state (updateWishlistHeart h b) = (b, b, \<not> b)"
proof -
  have "updateWishlistHeart (updateWishlistHeart h b) b = updateWishlistHeart h b"
    by (cases b)
      (auto simp add: updateWishlistHeart_def classList_add_def classList_remove_def Let_def)
  then show ?thesis
    by (simp add: class_state_updateWishlistHeart)
qed

theorem updateWishlistHeart_idempotent_witness:
  "updateWishlistHeart
     (updateWishlistHeart
        \<lparr>bookIsbn = None, classList = {js ''wishlist-heart'', js ''active''},
         iconClassList = {js ''text-danger''}\<rparr> False) False
   = \<lparr>bookIsbn = None, classList = {js ''wishlist-heart''},
      iconClassList = {js ''text-muted''}\<rparr> \<and>
   class_state
     (updateWishlistHeart
        \<lparr>bookIsbn = None, classList = {js ''wishlist-heart'', js ''active''},
         iconClassList = {js ''text-danger''}\<rparr> False)
   = class_state
       (updateWishlistHeart
          \<lparr>bookIsbn = Some (js ''9''), classList = {}, iconClassList = {js ''fas''}\<rparr>
          False)"
proof -
  have "updateWishlistHeart
         \<lparr>bookIsbn = None, classList = {js ''wishlist-heart'', js ''active''},
          iconClassList = {js ''text-danger''}\<rparr> False
        = \<lparr>bookIsbn = None, classList = {js ''wishlist-heart''},
           iconClassList = {js ''text-muted''}\<rparr>"
    by (auto simp add: updateWishlistHeart_def classList_add_def classList_remove_def Let_def)
  then show ?thesis
    using updateWishlistHeart_idempotent
      [of "\<lparr>bookIsbn = None, classList = {js ''wishlist-heart'', js ''active''},
            iconClassList = {js ''text-danger''}\<rparr>" False
          "\<lparr>bookIsbn = Some (js ''9''), classList = {}, iconClassList = {js ''fas''}\<rparr>"]
    by simp
qed

section \<open>Scrolling\<close>

text \<open>
  C6. At every scroll event, with \<open>cur\<close> the current vertical offset and \<open>last\<close> the
  stored previous one: after the listener has run the navbar carries \<open>navbar-hidden\<close>
  exactly when \<open>cur > last\<close> and \<open>cur\<close> exceeds the navbar's height; it carries
  \<open>navbar-scrolled\<close> exactly when \<open>cur > 100\<close>; and the stored offset is \<open>cur\<close>. The
  navbar's height is unchanged.
\<close>

theorem on_scroll_classes:
  "classList_contains (navbarClassList (on_scroll y t s)) (js ''navbar-hidden'')
     = (current_scrollTop y t > lastScrollTop s \<and> current_scrollTop y t > navbarHeight s) \<and>
   classList_contains (navbarClassList (on_scroll y t s)) (js ''navbar-scrolled'')
     = (current_scrollTop y t > 100) \<and>
   lastScrollTop (on_scroll y t s) = current_scrollTop y t \<and>
   navbarHeight (on_scroll y t s) = navbarHeight s"
  by (simp add: on_scroll_def Let_def classList_add_def classList_remove_def
      classList_contains_def)

theorem on_scroll_classes_witness:
  "classList_contains
     (navbarClassList (on_scroll 150 150 (initializeNavbarScroll {js ''navbar''} 0 56)))
     (js ''navbar-hidden'') \<and>
   classList_contains
     (navbarClassList (on_scroll 150 150 (initializeNavbarScroll {js ''navbar''} 0 56)))
     (js ''navbar-scrolled'') \<and>
   lastScrollTop (on_scroll 150 150 (initializeNavbarScroll {js ''navbar''} 0 56)) = 150 \<and>
   \<not> classList_contains
     (navbarClassList
        (on_scroll 120 120 (on_scroll 150 150 (initializeNavbarScroll {js ''navbar''} 0 56))))
     (js ''navbar-hidden'') \<and>
   classList_contains
     (navbarClassList
        (on_scroll 120 120 (on_scroll 150 150 (initializeNavbarScroll {js ''navbar''} 0 56))))
     (js ''navbar-scrolled'')"
  using on_scroll_classes [of 150 150 "initializeNavbarScroll {js ''navbar''} 0 56"]
    on_scroll_classes
      [of 120 120 "on_scroll 150 150 (initializeNavbarScroll {js ''navbar''} 0 56)"]
  by (simp add: current_scrollTop_def initializeNavbarScroll_def)

section \<open>Reading cookies\<close>

lemma getCookie_loop_end:
  "\<not> i < length cookies \<Longrightarrow> getCookie_loop cookies name i cv = Inr cv"
  by (subst getCookie_loop.simps) simp

lemma getCookie_loop_hit:
  "i < length cookies \<Longrightarrow> named name (trim (cookies ! i)) \<Longrightarrow>
     getCookie_loop cookies name i cv = decoded_value name (trim (cookies ! i))"
  by (subst getCookie_loop.simps) (simp add: named_def decoded_value_def Let_def)

lemma getCookie_loop_miss:
  "i < length cookies \<Longrightarrow> \<not> named name (trim (cookies ! i)) \<Longrightarrow>
     getCookie_loop cookies name i cv = getCookie_loop cookies name (Suc i) cv"
  by (subst getCookie_loop.simps) (simp add: named_def Let_def)

lemma getCookie_loop_find:
  "getCookie_loop cookies name i cv =
     (case find (named name) (map trim (drop i cookies)) of
        None \<Rightarrow> Inr cv
      | Some e \<Rightarrow> decoded_value name e)"
proof (induction "length cookies - i" arbitrary: i)
  case 0
  then show ?case by (simp add: getCookie_loop_end)
next
  case (Suc n)
  then have i: "i < length cookies" by simp
  then have d: "drop i cookies = cookies ! i # drop (Suc i) cookies"
    by (simp add: Cons_nth_drop_Suc)
  show ?case
  proof (cases "named name (trim (cookies ! i))")
    case True
    with i d show ?thesis by (simp add: getCookie_loop_hit)
  next
    case False
    from Suc have "n = length cookies - Suc i" by simp
    from Suc.hyps(1) [OF this] False i d show ?thesis
      by (simp add: getCookie_loop_miss)
  qed
qed

lemma split_on_not_Nil: "split_on sep s \<noteq> []"
  by (induction s) (auto split: list.splits)

lemma getCookie_find:
  "getCookie s name =
     (case find (named name) (cookie_entries s) of
        None \<Rightarrow> Inr None
      | Some e \<Rightarrow> decoded_value name e)"
proof (cases "s = []")
  case True
  then show ?thesis by (simp add: getCookie_def cookie_entries_def named_def trim_def)
next
  case False
  then show ?thesis by (simp add: getCookie_def cookie_entries_def getCookie_loop_find)
qed

lemma find_first:
  "\<forall>x \<in> set pre. \<not> P x \<Longrightarrow> P e \<Longrightarrow> find P (pre @ e # post) = Some e"
  by (induction pre) auto

lemma named_iff: "named name e \<longleftrightarrow> (\<exists>v. e = name @ js ''='' @ v)"
proof
  assume "named name e"
  then have "e = name @ js ''='' @ drop (length name + 1) e"
    unfolding named_def by (metis append_assoc append_take_drop_id)
  then show "\<exists>v. e = name @ js ''='' @ v" ..
next
  assume "\<exists>v. e = name @ js ''='' @ v"
  then show "named name e" by (auto simp add: named_def js_def)
qed

text \<open>
  C7, as amended. For every cookie string \<open>s\<close> and every name: if no entry of the
  string starts with \<open>name=\<close>, \<open>getCookie\<close> returns \<open>null\<close>. If the entries are
  \<open>pre\<close>, then \<open>name=v\<close>, then \<open>post\<close>, and no entry of \<open>pre\<close> starts with \<open>name=\<close>,
  then whatever \<open>pre\<close> and \<open>post\<close> are, \<open>getCookie\<close> does what \<open>decodeURIComponent\<close>
  does on \<open>v\<close>: it returns the decoded value, or raises the \<open>URIError\<close> of a value that
  is not well-formed percent-encoding.
\<close>

theorem getCookie_spec:
  "((\<forall>e \<in> set (cookie_entries s). \<not> named name e) \<longrightarrow> getCookie s name = Inr None) \<and>
   (cookie_entries s = pre @ (name @ js ''='' @ v) # post \<and> (\<forall>x \<in> set pre. \<not> named name x) \<longrightarrow>
      getCookie s name =
        (case decodeURIComponent v of Inl err \<Rightarrow> Inl err | Inr d \<Rightarrow> Inr (Some d)))"
proof (intro conjI impI)
  assume "\<forall>e \<in> set (cookie_entries s). \<not> named name e"
  then have "find (named name) (cookie_entries s) = None"
    by (simp add: find_None_iff)
  then show "getCookie s name = Inr None" by (simp add: getCookie_find)
next
  let ?e = "name @ js ''='' @ v"
  assume a: "cookie_entries s = pre @ ?e # post \<and> (\<forall>x \<in> set pre. \<not> named name x)"
  have "named name ?e" by (auto simp add: named_iff)
  with a have "find (named name) (cookie_entries s) = Some ?e"
    by (simp add: find_first)
  then have "getCookie s name = decoded_value name ?e" by (simp add: getCookie_find)
  also have "drop (length name + 1) ?e = v" by (simp add: js_def)
  then have "decoded_value name ?e =
    (case decodeURIComponent v of Inl err \<Rightarrow> Inl err | Inr d \<Rightarrow> Inr (Some d))"
    by (simp only: decoded_value_def)
  finally show "getCookie s name =
    (case decodeURIComponent v of Inl err \<Rightarrow> Inl err | Inr d \<Rightarrow> Inr (Some d))" .
qed

theorem getCookie_spec_witness:
  "getCookie (js ''x=1; a=%41b'') (js ''b'') = Inr None \<and>
   getCookie (js ''x=1; a=%41b'') (js ''a'') = Inr (Some (js ''Ab'')) \<and>
   getCookie (js ''a=%41b; x=1'') (js ''a'') = Inr (Some (js ''Ab''))"
proof -
  have e1: "cookie_entries (js ''x=1; a=%41b'') = [js ''x=1'', js ''a=%41b'']"
    by code_simp
  have e2: "cookie_entries (js ''a=%41b; x=1'') = [js ''a=%41b'', js ''x=1'']"
    by code_simp
  have n1: "\<not> named (js ''b'') (js ''x=1'')" "\<not> named (js ''b'') (js ''a=%41b'')"
    "\<not> named (js ''a'') (js ''x=1'')"
    by code_simp+
  have v: "js ''a=%41b'' = js ''a'' @ js ''='' @ js ''%41b''"
    by (simp add: js_def)
  have d: "decodeURIComponent (js ''%41b'') = Inr (js ''Ab'')"
    by code_simp
  have "getCookie (js ''x=1; a=%41b'') (js ''b'') = Inr None"
    using getCookie_spec [of "js ''x=1; a=%41b''" "js ''b''" "[]" "[]" "[]"] e1 n1
    by simp
  moreover have "getCookie (js ''x=1; a=%41b'') (js ''a'') = Inr (Some (js ''Ab''))"
    using getCookie_spec [of "js ''x=1; a=%41b''" "js ''a''" "[js ''x=1'']" "js ''%41b''" "[]"]
      e1 n1 d
    by (simp add: v)
  moreover have "getCookie (js ''a=%41b; x=1'') (js ''a'') = Inr (Some (js ''Ab''))"
    using getCookie_spec [of "js ''a=%41b; x=1''" "js ''a''" "[]" "js ''%41b''" "[js ''x=1'']"]
      e2 d
    by (simp add: v)
  ultimately show ?thesis by simp
qed

text \<open>
  C7 as stated fails where the value is not well-formed percent-encoding: with the
  cookie string \<open>csrftoken=%\<close> the cookie \<open>csrftoken\<close> is present, and \<open>getCookie\<close>
  returns no value: \<open>decodeURIComponent\<close> raises.
\<close>

theorem getCookie_malformed_value:
  "cookie_entries (js ''csrftoken=%'') = [js ''csrftoken'' @ js ''='' @ js ''%''] \<and>
   getCookie (js ''csrftoken=%'') (js ''csrftoken'') = Inl URIError"
proof -
  have "cookie_entries (js ''csrftoken=%'') = [js ''csrftoken=%'']" by code_simp
  moreover have "js ''csrftoken=%'' = js ''csrftoken'' @ js ''='' @ js ''%''"
    by (simp add: js_def)
  moreover have "getCookie (js ''csrftoken=%'') (js ''csrftoken'') = Inl URIError"
    by code_simp
  ultimately show ?thesis by simp
qed

section \<open>Toggling\<close>

lemma toasts_showToast [simp]:
  "toasts (showToast msg type duration p)
     = toasts p @ [\<lparr>toast_message = msg, toast_type = type, toast_delay = duration\<rparr>]"
  by (simp add: toasts_def showToast_def)

lemma showToast_frame [simp]:
  "hearts (showToast msg type duration p) = hearts p"
  "trace (showToast msg type duration p) = trace p"
  "pendingToggles (showToast msg type duration p) = pendingToggles p"
  "phase (showToast msg type duration p) = phase p"
  "document_cookie (showToast msg type duration p) = document_cookie p"
  by (simp_all add: showToast_def)

lemma updateWishlistHeart_at_frame [simp]:
  "toasts (updateWishlistHeart_at i b p) = toasts p"
  "trace (updateWishlistHeart_at i b p) = trace p"
  "pendingToggles (updateWishlistHeart_at i b p) = pendingToggles p"
  "phase (updateWishlistHeart_at i b p) = phase p"
  "document_cookie (updateWishlistHeart_at i b p) = document_cookie p"
  by (simp_all add: updateWishlistHeart_at_def toasts_def)

lemma hearts_updateWishlistHeart_at [simp]:
  "hearts (updateWishlistHeart_at i b p)
     = (hearts p)[i := updateWishlistHeart (hearts p ! i) b]"
  by (simp add: updateWishlistHeart_at_def)

lemma toggleWishlist_response_data:
  "toggleWishlist_response (Response True (Some data)) i p =
     (if success data then
        (Inr (), showToast (message data)
                   (if in_wishlist data then js ''success'' else js ''info'') 5000
                   (updateWishlistHeart_at i (in_wishlist data) p))
      else
        (Inr (), updateWishlistHeart_at i (\<not> is_active (hearts p ! i))
                   (showToast (message data) (js ''warning'') 5000 p)))"
  by (simp add: toggleWishlist_response_def promise_then_def promise_catch_def
      fetch_settles_def response_json_def is_active_def Let_def)

lemma toggleWishlist_response_failed:
  "toggle_failed outcome \<Longrightarrow>
   toggleWishlist_response outcome i p =
     (Inr (), updateWishlistHeart_at i (\<not> is_active (hearts p ! i))
                (showToast (js ''Error updating wishlist'') (js ''danger'') 5000 p))"
  by (cases outcome)
    (auto simp add: toggleWishlist_response_def promise_then_def promise_catch_def
      fetch_settles_def response_json_def is_active_def Let_def toggle_failed_def)

text \<open>
  C1. For every heart of the page and every toggle response with \<open>success: true\<close>
  (a response that is ok, whose body parses), the reactions set the heart to \<open>in_wishlist\<close> (the heart is active exactly when
  \<open>in_wishlist\<close> holds, and no other heart changes), add exactly one toast, with the
  server's message and the type \<open>success\<close> when \<open>in_wishlist\<close> holds and \<open>info\<close> when not,
  and end without an error.
\<close>

theorem toggleWishlist_success:
  assumes "i < length (hearts p)" and "success data"
  shows "fst (toggleWishlist_response (Response True (Some data)) i p) = Inr () \<and>
    hearts (snd (toggleWishlist_response (Response True (Some data)) i p))
      = (hearts p)[i := updateWishlistHeart (hearts p ! i) (in_wishlist data)] \<and>
    is_active (hearts (snd (toggleWishlist_response (Response True (Some data)) i p)) ! i)
      = in_wishlist data \<and>
    toasts (snd (toggleWishlist_response (Response True (Some data)) i p))
      = toasts p @ [\<lparr>toast_message = message data,
                      toast_type = (if in_wishlist data then js ''success'' else js ''info''),
                      toast_delay = 5000\<rparr>] \<and>
    trace (snd (toggleWishlist_response (Response True (Some data)) i p)) = trace p"
  using assms by (simp add: toggleWishlist_response_data)

theorem toggleWishlist_success_witness:
  "let p = \<lparr>hearts = [\<lparr>bookIsbn = Some (js ''123''), classList = {js ''wishlist-heart''},
                       iconClassList = {js ''far'', js ''text-muted''}\<rparr>],
            toastContainer = None, document_cookie = js ''csrftoken=abc'', trace = [],
            phase = Initialized, pendingToggles = []\<rparr>;
       r = toggleWishlist_response
             (Response True
                (Some \<lparr>success = True, in_wishlist = True, message = js ''Added''\<rparr>)) 0 p
   in fst r = Inr () \<and> is_active (hearts (snd r) ! 0) \<and>
      toasts (snd r) = [\<lparr>toast_message = js ''Added'', toast_type = js ''success'',
                          toast_delay = 5000\<rparr>]"
proof -
  let ?p = "\<lparr>hearts = [\<lparr>bookIsbn = Some (js ''123''), classList = {js ''wishlist-heart''},
                       iconClassList = {js ''far'', js ''text-muted''}\<rparr>],
            toastContainer = None, document_cookie = js ''csrftoken=abc'', trace = [],
            phase = Initialized, pendingToggles = []\<rparr>"
  let ?d = "\<lparr>success = True, in_wishlist = True, message = js ''Added''\<rparr>"
  have a: "0 < length (hearts ?p)" "success ?d" "toasts ?p = []"
    by (simp_all add: toasts_def)
  show ?thesis
    using toggleWishlist_success [OF a(1) a(2)] a(3) by (simp add: Let_def)
qed

text \<open>
  C2. For every heart and every toggle response with \<open>success: false\<close> (a response
  that is ok, whose body parses), the reactions add one toast of type \<open>warning\<close> with the server's message and set the heart to the
  negation of the \<open>active\<close> state it has when the response is processed; the trace is
  unchanged: no request is issued.
\<close>

theorem toggleWishlist_refused:
  assumes "i < length (hearts p)" and "\<not> success data"
  shows "fst (toggleWishlist_response (Response True (Some data)) i p) = Inr () \<and>
    hearts (snd (toggleWishlist_response (Response True (Some data)) i p))
      = (hearts p)[i := updateWishlistHeart (hearts p ! i) (\<not> is_active (hearts p ! i))] \<and>
    is_active (hearts (snd (toggleWishlist_response (Response True (Some data)) i p)) ! i)
      = (\<not> is_active (hearts p ! i)) \<and>
    toasts (snd (toggleWishlist_response (Response True (Some data)) i p))
      = toasts p @ [\<lparr>toast_message = message data, toast_type = js ''warning'',
                      toast_delay = 5000\<rparr>] \<and>
    trace (snd (toggleWishlist_response (Response True (Some data)) i p)) = trace p"
  using assms by (simp add: toggleWishlist_response_data)

theorem toggleWishlist_refused_witness:
  "let p = \<lparr>hearts = [\<lparr>bookIsbn = Some (js ''123''), classList = {js ''wishlist-heart''},
                       iconClassList = {js ''far'', js ''text-muted''}\<rparr>],
            toastContainer = Some [], document_cookie = js ''csrftoken=abc'',
            trace = [], phase = Initialized, pendingToggles = []\<rparr>;
       r = toggleWishlist_response
             (Response True
                (Some \<lparr>success = False, in_wishlist = False,
                       message = js ''Limit reached''\<rparr>)) 0 p
   in fst r = Inr () \<and> is_active (hearts (snd r) ! 0) \<and>
      toasts (snd r) = [\<lparr>toast_message = js ''Limit reached'', toast_type = js ''warning'',
                          toast_delay = 5000\<rparr>] \<and>
      trace (snd r) = []"
proof -
  let ?p = "\<lparr>hearts = [\<lparr>bookIsbn = Some (js ''123''), classList = {js ''wishlist-heart''},
                       iconClassList = {js ''far'', js ''text-muted''}\<rparr>],
            toastContainer = Some [], document_cookie = js ''csrftoken=abc'',
            trace = [], phase = Initialized, pendingToggles = []\<rparr>"
  let ?d = "\<lparr>success = False, in_wishlist = False, message = js ''Limit reached''\<rparr>"
  have a: "0 < length (hearts ?p)" "\<not> success ?d" "toasts ?p = []"
    "\<not> is_active (hearts ?p ! 0)"
    by (simp_all add: toasts_def is_active_def classList_contains_def)
  show ?thesis
    using toggleWishlist_refused [OF a(1) a(2)] a(3) a(4) by (simp add: Let_def)
qed

text \<open>
  C3. For every heart, when the toggle request fails in transport, or the response is
  not ok, or its body does not parse, the reactions add one toast of type \<open>danger\<close>
  with the message \<open>Error updating wishlist\<close>, set the heart to the negation of its
  current \<open>active\<close> state, and the chain ends fulfilled: no error is left unhandled.
\<close>

theorem toggleWishlist_transport_failure:
  assumes "i < length (hearts p)" and "toggle_failed outcome"
  shows "fst (toggleWishlist_response outcome i p) = Inr () \<and>
    hearts (snd (toggleWishlist_response outcome i p))
      = (hearts p)[i := updateWishlistHeart (hearts p ! i) (\<not> is_active (hearts p ! i))] \<and>
    is_active (hearts (snd (toggleWishlist_response outcome i p)) ! i)
      = (\<not> is_active (hearts p ! i)) \<and>
    toasts (snd (toggleWishlist_response outcome i p))
      = toasts p @ [\<lparr>toast_message = js ''Error updating wishlist'',
                      toast_type = js ''danger'', toast_delay = 5000\<rparr>] \<and>
    trace (snd (toggleWishlist_response outcome i p)) = trace p"
  using assms by (simp add: toggleWishlist_response_failed)

theorem toggleWishlist_transport_failure_witness:
  "let p = \<lparr>hearts = [\<lparr>bookIsbn = Some (js ''123''),
                       classList = {js ''wishlist-heart'', js ''active''},
                       iconClassList = {js ''fas'', js ''text-danger''}\<rparr>],
            toastContainer = None, document_cookie = js ''csrftoken=abc'', trace = [],
            phase = Initialized, pendingToggles = []\<rparr>
   in (fst (toggleWishlist_response Rejected 0 p) = Inr () \<and>
       \<not> is_active (hearts (snd (toggleWishlist_response Rejected 0 p)) ! 0) \<and>
       toasts (snd (toggleWishlist_response Rejected 0 p))
         = [\<lparr>toast_message = js ''Error updating wishlist'', toast_type = js ''danger'',
              toast_delay = 5000\<rparr>]) \<and>
      (fst (toggleWishlist_response (Response False None) 0 p) = Inr () \<and>
       \<not> is_active (hearts (snd (toggleWishlist_response (Response False None) 0 p)) ! 0)) \<and>
      (fst (toggleWishlist_response (Response True None) 0 p) = Inr () \<and>
       \<not> is_active (hearts (snd (toggleWishlist_response (Response True None) 0 p)) ! 0))"
proof -
  let ?p = "\<lparr>hearts = [\<lparr>bookIsbn = Some (js ''123''),
                       classList = {js ''wishlist-heart'', js ''active''},
                       iconClassList = {js ''fas'', js ''text-danger''}\<rparr>],
            toastContainer = None, document_cookie = js ''csrftoken=abc'', trace = [],
            phase = Initialized, pendingToggles = []\<rparr>"
  have a: "is_active (hearts ?p ! 0)" "toasts ?p = []" "0 < length (hearts ?p)"
    by (simp_all add: is_active_def classList_contains_def toasts_def)
  have f: "toggle_failed Rejected" "toggle_failed (Response False None)"
    "toggle_failed (Response True None)"
    by (simp_all add: toggle_failed_def)
  show ?thesis
    using toggleWishlist_transport_failure [OF a(3) f(1)]
      toggleWishlist_transport_failure [OF a(3) f(2)]
      toggleWishlist_transport_failure [OF a(3) f(3)] a(1,2)
    by (simp add: Let_def)
qed

section \<open>Syncing at startup\<close>

lemma bookIsbns_empty_iff:
  "bookIsbns p = [] \<longleftrightarrow> (\<forall>h \<in> set (hearts p). bookIsbn h = None \<or> bookIsbn h = Some [])"
proof -
  have "truthy v \<longleftrightarrow> \<not> (v = None \<or> v = Some [])" for v
    by (cases v) (auto simp add: truthy_def)
  then show ?thesis by (auto simp add: bookIsbns_def filter_empty_conv)
qed

lemma set_bookIsbns:
  "set (bookIsbns p) = {c. c \<noteq> [] \<and> (\<exists>h \<in> set (hearts p). bookIsbn h = Some c)}"
  by (force simp add: bookIsbns_def truthy_def image_iff split: option.splits)

text \<open>
  C8, as amended. If no heart carries a code (\<open>bookIsbns\<close> is empty: every
  \<open>data-book-isbn\<close> is missing or empty), \<open>checkWishlistStates\<close> returns a fulfilled
  promise and issues no request. Otherwise, when the cookie reader returns for
  \<open>csrftoken\<close> (a token or \<open>null\<close>), it issues exactly one request: a \<open>POST\<close> to
  \<open>/wishlist/check-status/\<close> whose body lists the collected codes.
\<close>

theorem checkWishlistStates_request:
  "(bookIsbns p = [] \<longrightarrow>
      checkWishlistStates p = (Inr Fulfilled, p\<lparr>trace := trace p @ [SyncSettled]\<rparr>)) \<and>
   (bookIsbns p \<noteq> [] \<and> getCookie (document_cookie p) (js ''csrftoken'') = Inr token \<longrightarrow>
      checkWishlistStates p =
        (Inr Pending,
         p\<lparr>trace := trace p @
               [Fetch \<lparr>url = js ''/wishlist/check-status/'', http_method = js ''POST'',
                       headers = [(js ''Content-Type'', Some (js ''application/json'')),
                                  (js ''X-CSRFToken'', token)],
                       body = Some (bookIsbns p)\<rparr>]\<rparr>))"
  by (simp add: checkWishlistStates_def csrf_headers_def)


theorem checkWishlistStates_request_witness:
  "checkWishlistStates
     \<lparr>hearts = [\<lparr>bookIsbn = None, classList = {js ''wishlist-heart''},
                 iconClassList = {js ''far''}\<rparr>],
      toastContainer = None, document_cookie = js ''csrftoken=abc'', trace = [],
      phase = Loading, pendingToggles = []\<rparr>
   = (Inr Fulfilled,
      \<lparr>hearts = [\<lparr>bookIsbn = None, classList = {js ''wishlist-heart''},
                  iconClassList = {js ''far''}\<rparr>],
       toastContainer = None, document_cookie = js ''csrftoken=abc'',
       trace = [SyncSettled], phase = Loading, pendingToggles = []\<rparr>) \<and>
   checkWishlistStates
     \<lparr>hearts = [\<lparr>bookIsbn = Some (js ''123''), classList = {js ''wishlist-heart''},
                 iconClassList = {js ''far''}\<rparr>,
                \<lparr>bookIsbn = Some (js ''456''), classList = {js ''wishlist-heart''},
                 iconClassList = {js ''far''}\<rparr>],
      toastContainer = None, document_cookie = js ''csrftoken=abc'', trace = [],
      phase = Loading, pendingToggles = []\<rparr>
   = (Inr Pending,
      \<lparr>hearts = [\<lparr>bookIsbn = Some (js ''123''), classList = {js ''wishlist-heart''},
                  iconClassList = {js ''far''}\<rparr>,
                 \<lparr>bookIsbn = Some (js ''456''), classList = {js ''wishlist-heart''},
                  iconClassList = {js ''far''}\<rparr>],
       toastContainer = None, document_cookie = js ''csrftoken=abc'',
       trace = [Fetch \<lparr>url = js ''/wishlist/check-status/'', http_method = js ''POST'',
                       headers = [(js ''Content-Type'', Some (js ''application/json'')),
                                  (js ''X-CSRFToken'', Some (js ''abc''))],
                       body = Some [js ''123'', js ''456'']\<rparr>],
       phase = Loading, pendingToggles = []\<rparr>)"
proof -
  let ?p = "\<lparr>hearts = [\<lparr>bookIsbn = None, classList = {js ''wishlist-heart''},
                 iconClassList = {js ''far''}\<rparr>],
      toastContainer = None, document_cookie = js ''csrftoken=abc'', trace = [],
      phase = Loading, pendingToggles = []\<rparr>"
  let ?q = "\<lparr>hearts = [\<lparr>bookIsbn = Some (js ''123''), classList = {js ''wishlist-heart''},
                 iconClassList = {js ''far''}\<rparr>,
                \<lparr>bookIsbn = Some (js ''456''), classList = {js ''wishlist-heart''},
                 iconClassList = {js ''far''}\<rparr>],
      toastContainer = None, document_cookie = js ''csrftoken=abc'', trace = [],
      phase = Loading, pendingToggles = []\<rparr>"
  have c: "getCookie (js ''csrftoken=abc'') (js ''csrftoken'') = Inr (Some (js ''abc''))"
    by code_simp
  have b: "bookIsbns ?p = []" "bookIsbns ?q = [js ''123'', js ''456'']"
    by (simp_all add: bookIsbns_def truthy_def)
  show ?thesis
    using checkWishlistStates_request [of ?p "Some (js ''abc'')"]
      checkWishlistStates_request [of ?q "Some (js ''abc'')"] b c
    by simp
qed

text \<open>
  C8 as stated fails where the \<open>csrftoken\<close> cookie is not well-formed
  percent-encoding: a heart carries the code \<open>1\<close>, and \<open>checkWishlistStates\<close> raises the
  \<open>URIError\<close> of the cookie reader and issues no request.
\<close>

theorem checkWishlistStates_malformed_cookie:
  "bookIsbns
     \<lparr>hearts = [\<lparr>bookIsbn = Some (js ''1''), classList = {js ''wishlist-heart''},
                 iconClassList = {js ''far''}\<rparr>],
      toastContainer = None, document_cookie = js ''csrftoken=%'', trace = [],
      phase = Loading, pendingToggles = []\<rparr> = [js ''1''] \<and>
   checkWishlistStates
     \<lparr>hearts = [\<lparr>bookIsbn = Some (js ''1''), classList = {js ''wishlist-heart''},
                 iconClassList = {js ''far''}\<rparr>],
      toastContainer = None, document_cookie = js ''csrftoken=%'', trace = [],
      phase = Loading, pendingToggles = []\<rparr>
   = (Inl URIError,
      \<lparr>hearts = [\<lparr>bookIsbn = Some (js ''1''), classList = {js ''wishlist-heart''},
                  iconClassList = {js ''far''}\<rparr>],
       toastContainer = None, document_cookie = js ''csrftoken=%'', trace = [],
       phase = Loading, pendingToggles = []\<rparr>)"
proof -
  have c: "getCookie (js ''csrftoken=%'') (js ''csrftoken'') = Inl URIError"
    by code_simp
  show ?thesis
    by (simp add: checkWishlistStates_def csrf_headers_def bookIsbns_def truthy_def c)
qed





lemma bookIsbn_synced_heart [simp]:
  "bookIsbn (synced_heart statuses hs j) = bookIsbn (hs ! j)"
  by (simp add: synced_heart_def split: option.splits)



lemma synced_heart_unchanged:
  assumes "bookIsbn (hs ! j) = None \<or>
    (\<exists>c. bookIsbn (hs ! j) = Some c \<and>
       (c \<notin> fst ` set statuses \<or> first_index (\<lambda>h. bookIsbn h = Some c) hs \<noteq> Some j))"
  shows "synced_heart statuses hs j = hs ! j"
proof -
  have "map_of (rev statuses) c = None" if "c \<notin> fst ` set statuses" for c
    using that by (simp add: map_of_eq_None_iff)
  with assms show ?thesis
    by (auto simp add: synced_heart_def split: option.splits)
qed

lemma synced_heart_first:
  assumes "bookIsbn (hs ! j) = Some c" and "first_index (\<lambda>h. bookIsbn h = Some c) hs = Some j"
    and "map_of (rev statuses) c = Some b"
  shows "synced_heart statuses hs j = updateWishlistHeart (hs ! j) b"
    and "is_active (synced_heart statuses hs j) = b"
  using assms by (simp_all add: synced_heart_def)





section \<open>The sync settles before the click listeners\<close>

lemma sync_first_before:
  "sync_first (pre @ AddClickListener heart # post) \<Longrightarrow> SyncSettled \<in> set pre"
proof (induction pre)
  case Nil
  then show ?case by simp
next
  case (Cons a pre)
  then show ?case by (cases a) simp_all
qed

lemma not_sync_first:
  "\<not> sync_first t \<Longrightarrow>
     \<exists>pre heart post. t = pre @ AddClickListener heart # post \<and> SyncSettled \<notin> set pre"
proof (induction t rule: sync_first.induct)
  case 1
  then show ?case by simp
next
  case (2 t)
  then show ?case by simp
next
  case (3 heart t)
  have "AddClickListener heart # t = [] @ AddClickListener heart # t \<and> SyncSettled \<notin> set []"
    by simp
  then show ?case by blast
next
  case (4 r t)
  then obtain pre heart post where "t = pre @ AddClickListener heart # post"
    "SyncSettled \<notin> set pre"
    by auto
  then have "Fetch r # t = (Fetch r # pre) @ AddClickListener heart # post \<and>
      SyncSettled \<notin> set (Fetch r # pre)"
    by simp
  then show ?case by blast
qed

lemma sync_first_iff:
  "sync_first t \<longleftrightarrow>
     (\<forall>pre heart post. t = pre @ AddClickListener heart # post \<longrightarrow> SyncSettled \<in> set pre)"
  using sync_first_before not_sync_first by blast

lemma no_listener_AddClickListener [simp]: "\<not> no_listener (AddClickListener heart # t)"
  by (auto simp add: no_listener_def)

lemma no_listener_simps [simp]:
  "no_listener []"
  "no_listener (Fetch r # t) = no_listener t"
  "no_listener (SyncSettled # t) = no_listener t"
  "no_listener (t @ ts) = (no_listener t \<and> no_listener ts)"
  by (auto simp add: no_listener_def)

lemma sync_first_no_listener: "no_listener ts \<Longrightarrow> sync_first ts"
  by (induction ts rule: sync_first.induct) simp_all

lemma sync_first_append:
  "sync_first t \<Longrightarrow> SyncSettled \<in> set t \<or> no_listener ts \<Longrightarrow> sync_first (t @ ts)"
proof (induction t rule: sync_first.induct)
  case 1
  then show ?case by (simp add: sync_first_no_listener)
next
  case (2 t)
  then show ?case by simp
next
  case (3 heart t)
  then show ?case by simp
next
  case (4 r t)
  then show ?case by simp
qed

lemma no_listener_count: "no_listener t \<Longrightarrow> count_list t (AddClickListener heart) = 0"
  by (simp add: no_listener_def)

text \<open>What each operation does to the trace, the phase and the number of hearts.\<close>

lemma toggleWishlist_effect:
  "\<exists>ts. trace (snd (toggleWishlist isbn heart p)) = trace p @ ts \<and> no_listener ts \<and>
        SyncSettled \<notin> set ts"
  "phase (snd (toggleWishlist isbn heart p)) = phase p"
  "hearts (snd (toggleWishlist isbn heart p)) = hearts p"
  by (simp_all add: toggleWishlist_def Let_def split: sum.splits)

lemma click_listener_effect:
  "\<exists>ts. trace (click_listener heart p) = trace p @ ts \<and> no_listener ts \<and>
        SyncSettled \<notin> set ts"
  "phase (click_listener heart p) = phase p"
  "hearts (click_listener heart p) = hearts p"
  unfolding click_listener_def by (rule toggleWishlist_effect)+

lemma click_listeners_effect:
  "(\<exists>ts. trace ((click_listener heart ^^ n) p) = trace p @ ts \<and> no_listener ts \<and>
        SyncSettled \<notin> set ts) \<and>
   phase ((click_listener heart ^^ n) p) = phase p \<and>
   hearts ((click_listener heart ^^ n) p) = hearts p"
proof (induction n)
  case 0
  then show ?case by simp
next
  case (Suc n)
  let ?q = "(click_listener heart ^^ n) p"
  from Suc obtain ts where ts: "trace ?q = trace p @ ts" "no_listener ts" "SyncSettled \<notin> set ts"
    by blast
  obtain us where us: "trace (click_listener heart ?q) = trace ?q @ us" "no_listener us"
    "SyncSettled \<notin> set us"
    using click_listener_effect(1) [of heart ?q] by blast
  from ts us have "trace (click_listener heart ?q) = trace p @ (ts @ us)"
    "no_listener (ts @ us)" "SyncSettled \<notin> set (ts @ us)"
    by simp_all
  then have "\<exists>ws. trace (click_listener heart ?q) = trace p @ ws \<and> no_listener ws \<and>
      SyncSettled \<notin> set ws"
    by blast
  with Suc show ?case
    by (simp add: click_listener_effect(2,3))
qed

lemma toggle_outcome_cases:
  "toggle_failed outcome \<or> (\<exists>data. outcome = Response True (Some data))"
  by (cases outcome) (auto simp add: toggle_failed_def)

lemma toggleWishlist_response_effect:
  "trace (snd (toggleWishlist_response outcome heart p)) = trace p"
  "phase (snd (toggleWishlist_response outcome heart p)) = phase p"
  "length (hearts (snd (toggleWishlist_response outcome heart p))) = length (hearts p)"
  using toggle_outcome_cases [of outcome]
  by (auto simp add: toggleWishlist_response_data toggleWishlist_response_failed)

lemma apply_status_effect:
  "trace (snd (apply_status st p)) = trace p"
  "phase (snd (apply_status st p)) = phase p"
  "length (hearts (snd (apply_status st p))) = length (hearts p)"
  by (simp_all add: apply_status_def split: sum.splits option.splits)

lemma forEach_status_effect:
  "trace (snd (forEach_status sts p)) = trace p \<and>
   phase (snd (forEach_status sts p)) = phase p \<and>
   length (hearts (snd (forEach_status sts p))) = length (hearts p)"
proof (induction sts arbitrary: p)
  case Nil
  then show ?case by simp
next
  case (Cons st sts)
  obtain r q where a: "apply_status st p = (r, q)" by (cases "apply_status st p")
  with apply_status_effect [of st p]
  have q: "trace q = trace p" "phase q = phase p" "length (hearts q) = length (hearts p)"
    by simp_all
  show ?case
  proof (cases r)
    case (Inl e)
    with a q show ?thesis by simp
  next
    case (Inr u)
    with a q Cons.IH [of q] show ?thesis by simp
  qed
qed

lemma checkWishlistStates_response_effect:
  "fst (checkWishlistStates_response outcome p) = Inr ()"
  "trace (snd (checkWishlistStates_response outcome p)) = trace p @ [SyncSettled]"
  "phase (snd (checkWishlistStates_response outcome p)) = phase p"
  "length (hearts (snd (checkWishlistStates_response outcome p))) = length (hearts p)"
proof -
  define s where "s = promise_then
                (\<lambda>data p.
                   if success data then forEach_status (wishlist_status data) p
                   else (Inr (), p))
                (promise_then
                   (\<lambda>response p. (response_json response, p))
                   (fetch_settles outcome p))"
  have q: "trace (snd s) = trace p \<and> phase (snd s) = phase p \<and>
      length (hearts (snd s)) = length (hearts p)"
  proof (cases outcome)
    case Rejected
    then show ?thesis by (simp add: s_def promise_then_def fetch_settles_def)
  next
    case (Response ok parsed)
    show ?thesis
    proof (cases parsed)
      case None
      with Response show ?thesis
        by (simp add: s_def promise_then_def fetch_settles_def response_json_def)
    next
      case (Some data)
      show ?thesis
      proof (cases "success data")
        case True
        with Some Response forEach_status_effect [of "wishlist_status data" p] show ?thesis
          by (simp add: s_def promise_then_def fetch_settles_def response_json_def)
      next
        case False
        with Some Response show ?thesis
          by (simp add: s_def promise_then_def fetch_settles_def response_json_def)
      qed
    qed
  qed
  have "checkWishlistStates_response outcome p
      = (Inr (), (snd s)\<lparr>trace := trace (snd s) @ [SyncSettled]\<rparr>)"
  proof (cases s)
    case (Pair r q)
    then show ?thesis
      unfolding checkWishlistStates_response_def s_def [symmetric]
      by (cases r) (simp_all add: promise_catch_def)
  qed
  with q show "fst (checkWishlistStates_response outcome p) = Inr ()"
    "trace (snd (checkWishlistStates_response outcome p)) = trace p @ [SyncSettled]"
    "phase (snd (checkWishlistStates_response outcome p)) = phase p"
    "length (hearts (snd (checkWishlistStates_response outcome p))) = length (hearts p)"
    by simp_all
qed

lemma attach_click_handlers_effect:
  "trace (attach_click_handlers p) = trace p @ map AddClickListener [0..<length (hearts p)]"
  "phase (attach_click_handlers p) = Initialized"
  "hearts (attach_click_handlers p) = hearts p"
proof -
  have "trace (foldl (\<lambda>q heart. initializeWishlistHeart heart q) p is)
          = trace p @ map AddClickListener is \<and>
        hearts (foldl (\<lambda>q heart. initializeWishlistHeart heart q) p is) = hearts p" for "is"
    by (induction "is" rule: rev_induct) (simp_all add: initializeWishlistHeart_def)
  then show "trace (attach_click_handlers p)
      = trace p @ map AddClickListener [0..<length (hearts p)]"
    "phase (attach_click_handlers p) = Initialized"
    "hearts (attach_click_handlers p) = hearts p"
    by (simp_all add: attach_click_handlers_def)
qed

lemma count_list_listeners:
  "count_list (map AddClickListener [0..<n]) (AddClickListener heart) = (if heart < n then 1 else 0)"
  by (induction n) auto


lemma checkWishlistStates_effect:
  "(\<exists>e. checkWishlistStates p = (Inl e, p)) \<or>
   checkWishlistStates p = (Inr Fulfilled, p\<lparr>trace := trace p @ [SyncSettled]\<rparr>) \<or>
   (\<exists>r. checkWishlistStates p = (Inr Pending, p\<lparr>trace := trace p @ [Fetch r]\<rparr>))"
proof (cases "bookIsbns p = []")
  case True
  then show ?thesis by (simp add: checkWishlistStates_def)
next
  case False
  show ?thesis
  proof (cases "csrf_headers p (js ''Content-Type'', Some (js ''application/json''))")
    case (Inl e)
    with False show ?thesis by (simp add: checkWishlistStates_def)
  next
    case (Inr hs)
    with False have "checkWishlistStates p
        = (Inr Pending,
           p\<lparr>trace := trace p @
                 [Fetch \<lparr>url = js ''/wishlist/check-status/'', http_method = js ''POST'',
                         headers = hs, body = Some (bookIsbns p)\<rparr>]\<rparr>)"
      by (simp add: checkWishlistStates_def)
    then show ?thesis by blast
  qed
qed

lemma attach_after_sync:
  assumes "length (hearts p) = n" and "sync_first (trace p)" and "no_listener (trace p)"
    and q: "trace q = trace p @ [SyncSettled]" "length (hearts q) = n"
  shows "listeners_invariant n (attach_click_handlers q)"
proof -
  let ?t = "(trace p @ [SyncSettled]) @ map AddClickListener [0..<n]"
  have t: "trace (attach_click_handlers q) = ?t"
    using q by (simp add: attach_click_handlers_effect)
  have "sync_first (trace p @ [SyncSettled])"
    using assms(2) by (rule sync_first_append) simp
  then have 1: "sync_first ?t"
    by (rule sync_first_append) simp
  have 2: "SyncSettled \<in> set ?t" by simp
  have 3: "count_list ?t (AddClickListener heart) = (if heart < n then 1 else 0)" for heart
    using assms(3) by (simp add: no_listener_count count_list_listeners)
  have 4: "length (hearts (attach_click_handlers q)) = n"
    "phase (attach_click_handlers q) = Initialized"
    using q(2) by (simp_all add: attach_click_handlers_effect)
  show ?thesis
    unfolding listeners_invariant_def t using 1 2 3 4 by (simp only: if_True simp_thms)
qed

lemma listeners_invariant_extend:
  assumes "listeners_invariant n p" and "trace q = trace p @ ts" and "no_listener ts"
    and "phase q = phase p" and "length (hearts q) = length (hearts p)"
  shows "listeners_invariant n q"
proof -
  have "sync_first (trace p @ ts)"
    using assms(1,3) by (auto simp add: listeners_invariant_def intro: sync_first_append)
  moreover have "count_list (trace p @ ts) a = count_list (trace p) a"
    if "a = AddClickListener heart" for a heart
    using assms(3) that by (simp add: no_listener_count)
  ultimately show ?thesis
    using assms by (auto simp add: listeners_invariant_def)
qed

lemma fire_invariant:
  assumes "listeners_invariant n p"
  shows "listeners_invariant n (fire e p)"
proof (cases e)
  case DOMContentLoaded
  show ?thesis
  proof (cases "phase p = Loading")
    case False
    with DOMContentLoaded assms show ?thesis by simp
  next
    case True
    with assms have p: "length (hearts p) = n" "sync_first (trace p)" "no_listener (trace p)"
      by (simp_all add: listeners_invariant_def)
    from checkWishlistStates_effect [of p] consider
      (raised) e where "checkWishlistStates p = (Inl e, p)"
      | (fulfilled) "checkWishlistStates p
          = (Inr Fulfilled, p\<lparr>trace := trace p @ [SyncSettled]\<rparr>)"
      | (pending) r where "checkWishlistStates p
          = (Inr Pending, p\<lparr>trace := trace p @ [Fetch r]\<rparr>)"
      by blast
    then show ?thesis
    proof cases
      case raised
      with True DOMContentLoaded p show ?thesis
        by (simp add: initializeWishlistHearts_def listeners_invariant_def)
    next
      case fulfilled
      have "listeners_invariant n (attach_click_handlers (p\<lparr>trace := trace p @ [SyncSettled]\<rparr>))"
        using p by (rule attach_after_sync) (simp_all add: p)
      with fulfilled True DOMContentLoaded show ?thesis
        by (simp add: initializeWishlistHearts_def)
    next
      case pending
      with True DOMContentLoaded p show ?thesis
        by (simp add: initializeWishlistHearts_def listeners_invariant_def sync_first_append)
    qed
  qed
next
  case (SyncResponse outcome)
  show ?thesis
  proof (cases "phase p = AwaitingSync")
    case False
    with SyncResponse assms show ?thesis by simp
  next
    case True
    with assms have p: "length (hearts p) = n" "sync_first (trace p)" "no_listener (trace p)"
      by (simp_all add: listeners_invariant_def)
    obtain r q where rq: "checkWishlistStates_response outcome p = (r, q)"
      by (cases "checkWishlistStates_response outcome p")
    with checkWishlistStates_response_effect [of outcome p]
    have q: "r = Inr ()" "trace q = trace p @ [SyncSettled]" "length (hearts q) = n"
      using p(1) by simp_all
    have "listeners_invariant n (attach_click_handlers q)"
      using p q(2,3) by (rule attach_after_sync)
    with rq q(1) True SyncResponse show ?thesis by simp
  qed
next
  case (Click heart)
  show ?thesis
  proof (cases "heart < length (hearts p)")
    case False
    with Click assms show ?thesis by simp
  next
    case True
    let ?q = "(click_listener heart ^^ count_list (trace p) (AddClickListener heart)) p"
    from click_listeners_effect
      [where heart = heart and n = "count_list (trace p) (AddClickListener heart)" and p = p]
    obtain ts where "trace ?q = trace p @ ts" "no_listener ts" "phase ?q = phase p"
      "length (hearts ?q) = length (hearts p)"
      by auto
    with assms have "listeners_invariant n ?q" by (rule listeners_invariant_extend)
    with True Click show ?thesis by simp
  qed
next
  case (ToggleResponse k outcome)
  show ?thesis
  proof (cases "k < length (pendingToggles p)")
    case False
    with ToggleResponse assms show ?thesis by simp
  next
    case True
    let ?p = "p\<lparr>pendingToggles := take k (pendingToggles p) @ drop (Suc k) (pendingToggles p)\<rparr>"
    let ?q = "snd (toggleWishlist_response outcome (pendingToggles p ! k) ?p)"
    have "trace ?q = trace p @ []" "no_listener []" "phase ?q = phase p"
      "length (hearts ?q) = length (hearts p)"
      by (simp_all add: toggleWishlist_response_effect)
    with assms have "listeners_invariant n ?q" by (rule listeners_invariant_extend)
    with True ToggleResponse show ?thesis by simp
  qed
qed

lemma run_invariant:
  "listeners_invariant n p \<Longrightarrow> listeners_invariant n (run events p)"
  unfolding run_def by (induction events arbitrary: p) (simp_all add: fire_invariant)

lemma sync_response_initializes:
  "phase p = AwaitingSync \<Longrightarrow> phase (fire (SyncResponse outcome) p) = Initialized"
proof -
  assume a: "phase p = AwaitingSync"
  obtain r q where rq: "checkWishlistStates_response outcome p = (r, q)"
    by (cases "checkWishlistStates_response outcome p")
  with checkWishlistStates_response_effect(1) [of outcome p] have "r = Inr ()" by simp
  with rq a show ?thesis by (simp add: attach_click_handlers_effect)
qed

text \<open>
  C5. From a page that is loading, after any sequence of events: every
  \<open>AddClickListener\<close> of the trace has \<open>SyncSettled\<close> before it; while the sync has not
  settled no heart has a click listener; once the initialization is complete every heart
  has exactly one; and a status request that settles, with whatever outcome (a failure
  too), completes the initialization.
\<close>

theorem sync_settles_before_click_listeners:
  assumes "phase p0 = Loading" and "trace p0 = []"
  shows "(\<forall>pre heart post.
            trace (run events p0) = pre @ AddClickListener heart # post \<longrightarrow>
            SyncSettled \<in> set pre) \<and>
         (SyncSettled \<notin> set (trace (run events p0)) \<longrightarrow>
            (\<forall>heart. AddClickListener heart \<notin> set (trace (run events p0)))) \<and>
         (phase (run events p0) = Initialized \<longrightarrow>
            (\<forall>heart < length (hearts p0).
               count_list (trace (run events p0)) (AddClickListener heart) = 1)) \<and>
         (phase (run events p0) = AwaitingSync \<longrightarrow>
            phase (fire (SyncResponse outcome) (run events p0)) = Initialized)"
proof -
  let ?p = "run events p0"
  have "listeners_invariant (length (hearts p0)) p0"
    using assms by (simp add: listeners_invariant_def)
  then have inv: "listeners_invariant (length (hearts p0)) ?p"
    by (rule run_invariant)
  then have sf: "sync_first (trace ?p)" by (simp add: listeners_invariant_def)
  then have 1: "\<forall>pre heart post.
      trace ?p = pre @ AddClickListener heart # post \<longrightarrow> SyncSettled \<in> set pre"
    by (simp only: sync_first_iff)
  have 2: "AddClickListener heart \<notin> set (trace ?p)"
    if "SyncSettled \<notin> set (trace ?p)" for heart
  proof
    assume "AddClickListener heart \<in> set (trace ?p)"
    then obtain pre post where d: "trace ?p = pre @ AddClickListener heart # post"
      by (auto simp add: in_set_conv_decomp)
    with 1 have "SyncSettled \<in> set pre" by blast
    with d that show False by simp
  qed
  have 3: "count_list (trace ?p) (AddClickListener heart) = 1"
    if "phase ?p = Initialized" "heart < length (hearts p0)" for heart
    using inv that by (simp add: listeners_invariant_def)
  have 4: "phase (fire (SyncResponse outcome) ?p) = Initialized" if "phase ?p = AwaitingSync"
    using that by (rule sync_response_initializes)
  from 1 2 3 4 show ?thesis by blast
qed

theorem sync_settles_before_click_listeners_witness:
  "let p0 = \<lparr>hearts = [\<lparr>bookIsbn = Some (js ''123''), classList = {js ''wishlist-heart''},
                        iconClassList = {js ''far'', js ''text-muted''}\<rparr>],
             toastContainer = None, document_cookie = js ''csrftoken=abc'', trace = [],
             phase = Loading, pendingToggles = []\<rparr>;
       before = run [Click 0, DOMContentLoaded, Click 0] p0;
       after = run [Click 0, DOMContentLoaded, Click 0, SyncResponse Rejected, Click 0] p0
   in phase before = AwaitingSync \<and> AddClickListener 0 \<notin> set (trace before) \<and>
      phase after = Initialized \<and> SyncSettled \<in> set (trace after) \<and>
      count_list (trace after) (AddClickListener 0) = 1"
proof -
  let ?p0 = "\<lparr>hearts = [\<lparr>bookIsbn = Some (js ''123''), classList = {js ''wishlist-heart''},
                        iconClassList = {js ''far'', js ''text-muted''}\<rparr>],
             toastContainer = None, document_cookie = js ''csrftoken=abc'', trace = [],
             phase = Loading, pendingToggles = []\<rparr>"
  let ?before = "run [Click 0, DOMContentLoaded, Click 0] ?p0"
  let ?after = "run [Click 0, DOMContentLoaded, Click 0, SyncResponse Rejected, Click 0] ?p0"
  have a: "phase ?p0 = Loading" "trace ?p0 = []" "0 < length (hearts ?p0)"
    by simp_all
  have b: "phase ?before = AwaitingSync" "SyncSettled \<notin> set (trace ?before)"
    by code_simp+
  have c: "phase ?after = Initialized"
    by code_simp
  from sync_settles_before_click_listeners [OF a(1,2), of "[Click 0, DOMContentLoaded, Click 0]"] b
  have 1: "AddClickListener 0 \<notin> set (trace ?before)" by blast
  from sync_settles_before_click_listeners
    [OF a(1,2), of "[Click 0, DOMContentLoaded, Click 0, SyncResponse Rejected, Click 0]"] c a(3)
  have 2: "count_list (trace ?after) (AddClickListener 0) = 1"
    and 3: "SyncSettled \<notin> set (trace ?after) \<longrightarrow> AddClickListener 0 \<notin> set (trace ?after)"
    by blast+
  from 2 have "AddClickListener 0 \<in> set (trace ?after)"
    by (metis count_list_0_iff zero_neq_one)
  with 3 have 4: "SyncSettled \<in> set (trace ?after)" by blast
  from b(1) 1 c 4 2 show ?thesis by (simp only: Let_def simp_thms)
qed

end
